theory Spec2Isabelle
  imports Main "HOL-Library.Sublist"
begin

section \<open>Python strings\<close>

text \<open>
  A Python \<^verbatim>\<open>str\<close> is modelled as a \<^typ>\<open>string\<close>, each \<^typ>\<open>char\<close> read as the code
  point of the same number (U+0000 to U+00FF). The character classes below are those of
  CPython on that range: \<^verbatim>\<open>str.isspace\<close>, \<^verbatim>\<open>str.isalpha\<close>, \<^verbatim>\<open>str.lower\<close> and the class
  \<^verbatim>\<open>\w\<close> of the module \<^verbatim>\<open>re\<close> on \<^verbatim>\<open>str\<close> patterns.
\<close>

definition code_point :: "char \<Rightarrow> nat" where
  "code_point c = of_char c"

definition in_range :: "nat \<Rightarrow> nat \<Rightarrow> nat \<Rightarrow> bool" where
  "in_range lo hi n = (lo \<le> n \<and> n \<le> hi)"

definition latin1_letter :: "nat \<Rightarrow> bool" where
  "latin1_letter n =
     (n = 170 \<or> n = 181 \<or> n = 186 \<or> in_range 192 214 n \<or> in_range 216 246 n \<or> in_range 248 255 n)"

definition char_isspace :: "char \<Rightarrow> bool" where
  "char_isspace c =
     (let n = code_point c in in_range 9 13 n \<or> in_range 28 32 n \<or> n = 133 \<or> n = 160)"

definition char_isalpha :: "char \<Rightarrow> bool" where
  "char_isalpha c =
     (let n = code_point c in in_range 65 90 n \<or> in_range 97 122 n \<or> latin1_letter n)"

definition char_isupper :: "char \<Rightarrow> bool" where
  "char_isupper c =
     (let n = code_point c in in_range 65 90 n \<or> in_range 192 214 n \<or> in_range 216 222 n)"

text \<open>\<^verbatim>\<open>\w\<close>: the alphanumeric characters (letters, digits and numerics) and the underscore.\<close>

definition is_word_char :: "char \<Rightarrow> bool" where
  "is_word_char c =
     (let n = code_point c in
        in_range 48 57 n \<or> in_range 65 90 n \<or> n = 95 \<or> in_range 97 122 n \<or> latin1_letter n
        \<or> n = 178 \<or> n = 179 \<or> n = 185 \<or> in_range 188 190 n)"

text \<open>
  Every upper-case character of the range has its lower-case partner 32 code points above
  it, which is the same character with bit 5 set.
\<close>

definition char_lower :: "char \<Rightarrow> char" where
  "char_lower c =
     (if char_isupper c
      then (case c of Char b0 b1 b2 b3 b4 b5 b6 b7 \<Rightarrow> Char b0 b1 b2 b3 b4 True b6 b7)
      else c)"

definition str_lower :: "string \<Rightarrow> string" where
  "str_lower s = map char_lower s"

definition str_strip :: "string \<Rightarrow> string" where
  "str_strip s = rev (dropWhile char_isspace (rev (dropWhile char_isspace s)))"

section \<open>Regular expressions of the Emotion Engine\<close>

text \<open>
  The patterns of \<^verbatim>\<open>update_emotional_state\<close> are built from two kinds of atom: the
  assertion \<^verbatim>\<open>\b\<close> and a literal character. \<^verbatim>\<open>re.search\<close> tries the pattern at
  every position of the subject, from left to right, the end of the string included.
\<close>

datatype re_atom = Boundary | Lit char

definition word_pattern :: "string \<Rightarrow> re_atom list" where
  "word_pattern w = Boundary # map Lit w @ [Boundary]"

fun is_word_opt :: "char option \<Rightarrow> bool" where
  "is_word_opt None = False"
| "is_word_opt (Some c) = is_word_char c"

fun next_char :: "string \<Rightarrow> char option" where
  "next_char [] = None"
| "next_char (c # cs) = Some c"

text \<open>
  \<open>re_match_here p prev s\<close>: the pattern \<open>p\<close> matches at the start of \<open>s\<close>, where
  \<open>prev\<close> is the character just before \<open>s\<close> in the subject (\<open>None\<close> at its start).
\<close>

fun re_match_here :: "re_atom list \<Rightarrow> char option \<Rightarrow> string \<Rightarrow> bool" where
  "re_match_here [] prev s = True"
| "re_match_here (Boundary # p) prev s =
     (is_word_opt prev \<noteq> is_word_opt (next_char s) \<and> re_match_here p prev s)"
| "re_match_here (Lit c # p) prev [] = False"
| "re_match_here (Lit c # p) prev (x # xs) = (x = c \<and> re_match_here p (Some x) xs)"

fun re_search_from :: "re_atom list \<Rightarrow> char option \<Rightarrow> string \<Rightarrow> bool" where
  "re_search_from p prev [] = re_match_here p prev []"
| "re_search_from p prev (c # cs) =
     (re_match_here p prev (c # cs) \<or> re_search_from p (Some c) cs)"

definition re_search :: "re_atom list \<Rightarrow> string \<Rightarrow> bool" where
  "re_search p s = re_search_from p None s"

section \<open>The persona record\<close>

text \<open>
  Modelled from the spec: the class \<^verbatim>\<open>PersonalityState\<close> of the module
  \<^verbatim>\<open>personality_manager\<close>, with the fields the three source files read and write.
\<close>

record PersonalityState =
  name :: string
  traits :: "string list"
  anchors :: "string list"
  reasoning_style :: string
  system_prompt :: string
  emotional_state :: string
  emotional_intensity :: int

section \<open>Emotion Engine\<close>

text \<open>
  The dictionary \<^verbatim>\<open>triggers\<close>, in insertion order (the order in which
  \<^verbatim>\<open>triggers.items()\<close> iterates).
\<close>

definition triggers :: "(re_atom list \<times> string \<times> int) list" where
  "triggers =
     [(word_pattern ''death'', ''melancholy'', 2),
      (word_pattern ''love'', ''nostalgic'', 1),
      (word_pattern ''fear'', ''anxious'', 1),
      (word_pattern ''hope'', ''reflective'', - 1),
      (word_pattern ''raven'', ''curious'', 1),
      (word_pattern ''mortality'', ''introspective'', 2)]"

text \<open>The \<^verbatim>\<open>for\<close> loop with its \<^verbatim>\<open>break\<close>, over the rules still to be tried.\<close>

fun trigger_loop ::
  "(re_atom list \<times> string \<times> int) list \<Rightarrow> string \<Rightarrow> PersonalityState \<Rightarrow> PersonalityState"
where
  "trigger_loop [] input_lower ps = ps"
| "trigger_loop ((pattern, new_emotion, intensity_change) # rest) input_lower ps =
     (if re_search pattern input_lower
      then ps\<lparr>emotional_state := new_emotion,
              emotional_intensity :=
                max 0 (min (emotional_intensity ps + intensity_change) 10)\<rparr>
      else trigger_loop rest input_lower ps)"

definition update_emotional_state :: "PersonalityState \<Rightarrow> string \<Rightarrow> PersonalityState" where
  "update_emotional_state ps user_input = trigger_loop triggers (str_lower user_input) ps"

section \<open>More string operations\<close>

definition str_startswith :: "string \<Rightarrow> string \<Rightarrow> bool" where
  "str_startswith s p = (take (length p) s = p)"

definition str_endswith :: "string \<Rightarrow> string \<Rightarrow> bool" where
  "str_endswith s p = (length p \<le> length s \<and> drop (length s - length p) s = p)"

definition str_removeprefix :: "string \<Rightarrow> string \<Rightarrow> string" where
  "str_removeprefix s p = (if str_startswith s p then drop (length p) s else s)"

definition str_removesuffix :: "string \<Rightarrow> string \<Rightarrow> string" where
  "str_removesuffix s p = (if str_endswith s p then take (length s - length p) s else s)"

text \<open>\<^verbatim>\<open>s.find(sub)\<close>: the index of the first occurrence, \<open>None\<close> for Python's \<open>-1\<close>.\<close>

fun str_find :: "string \<Rightarrow> string \<Rightarrow> nat option" where
  "str_find [] sub = (if sub = [] then Some 0 else None)"
| "str_find (c # cs) sub =
     (if str_startswith (c # cs) sub then Some 0 else map_option Suc (str_find cs sub))"

text \<open>\<^verbatim>\<open>sub in s\<close>.\<close>

fun str_in :: "string \<Rightarrow> string \<Rightarrow> bool" where
  "str_in sub [] = (sub = [])"
| "str_in sub (c # cs) = (str_startswith (c # cs) sub \<or> str_in sub cs)"

text \<open>
  \<^verbatim>\<open>s.split(sep)\<close> cuts at the occurrences of \<open>sep\<close> found from left to right, each
  search starting after the previous occurrence. Python raises \<^verbatim>\<open>ValueError\<close> on an
  empty separator; every separator of this program is a non-empty literal, and the model
  returns the string whole there.
\<close>

lemma str_find_bound: "str_find s sub = Some i \<Longrightarrow> i + length sub \<le> length s"
proof (induction s arbitrary: i)
  case Nil
  then show ?case by (simp split: if_splits)
next
  case (Cons c cs)
  show ?case
  proof (cases "str_startswith (c # cs) sub")
    case True
    then have "length (take (length sub) (c # cs)) = length sub"
      by (simp add: str_startswith_def)
    then have "length sub \<le> length (c # cs)" by simp
    with True Cons.prems show ?thesis by simp
  next
    case False
    with Cons.prems obtain j where "str_find cs sub = Some j" and "i = Suc j" by auto
    with Cons.IH show ?thesis by simp
  qed
qed

function str_split :: "string \<Rightarrow> string \<Rightarrow> string list" where
  "str_split s sep =
     (if sep = [] then [s]
      else (case str_find s sep of
              None \<Rightarrow> [s]
            | Some i \<Rightarrow> take i s # str_split (drop (i + length sep) s) sep))"
  by pat_completeness auto
termination
proof (relation "measure (\<lambda>(s, sep). length s)")
  show "wf (measure (\<lambda>(s, sep). length s))" by simp
next
  fix s sep :: string and i
  assume "sep \<noteq> []" and "str_find s sep = Some i"
  then have "i + length sep \<le> length s" and "0 < length sep"
    by (simp_all add: str_find_bound)
  then have "length s - (i + length sep) < length s" by linarith
  then show "((drop (i + length sep) s, sep), (s, sep)) \<in> measure (\<lambda>(s, sep). length s)"
    by simp
qed

declare str_split.simps [simp del]

fun str_join :: "string \<Rightarrow> string list \<Rightarrow> string" where
  "str_join sep [] = []"
| "str_join sep [x] = x"
| "str_join sep (x # y # ys) = x @ sep @ str_join sep (y # ys)"

definition str_isalpha :: "string \<Rightarrow> bool" where
  "str_isalpha s = (s \<noteq> [] \<and> list_all char_isalpha s)"

text \<open>\<^verbatim>\<open>str(n)\<close> of an integer, as an f-string renders it.\<close>

fun str_of_nat :: "nat \<Rightarrow> string" where
  "str_of_nat n =
     (if n < 10 then [''0123456789'' ! n]
      else str_of_nat (n div 10) @ [''0123456789'' ! (n mod 10)])"

definition str_of_int :: "int \<Rightarrow> string" where
  "str_of_int i = (if i < 0 then ''-'' @ str_of_nat (nat (- i)) else str_of_nat (nat i))"

section \<open>Heuristic Responder\<close>

text \<open>
  The dictionary \<^verbatim>\<open>heuristics\<close>, in insertion order. Each value is a closure over
  \<^verbatim>\<open>personality_state\<close>, here a function of it.
\<close>

definition heuristics :: "(string \<times> (PersonalityState \<Rightarrow> string)) list" where
  "heuristics =
     [(''death'', \<lambda>personality_state.
         ''Ah, death! The eternal muse of my musings. '' @ name personality_state @
         '' cannot help but dwell upon its mystery.''),
      (''love'', \<lambda>personality_state.
         ''Love, that bittersweet elixir, fills my heart with both longing and sorrow.''),
      (''raven'', \<lambda>personality_state.
         ''The raven, ever watchful, remains a steadfast symbol of my contemplations.'')]"

fun heuristic_loop ::
  "(string \<times> (PersonalityState \<Rightarrow> string)) list \<Rightarrow> PersonalityState \<Rightarrow> string \<Rightarrow> string option"
where
  "heuristic_loop [] personality_state user_input = None"
| "heuristic_loop ((trigger, response_fn) # rest) personality_state user_input =
     (if str_in trigger (str_lower user_input) then Some (response_fn personality_state)
      else heuristic_loop rest personality_state user_input)"

definition apply_decision_heuristics :: "PersonalityState \<Rightarrow> string \<Rightarrow> string option" where
  "apply_decision_heuristics personality_state user_input =
     heuristic_loop heuristics personality_state user_input"

section \<open>Response text cleaner\<close>

text \<open>
  \<^verbatim>\<open>extract_final_response\<close> reads the module-level \<^verbatim>\<open>personality_state\<close>, here its
  first argument. \<^verbatim>\<open>t.split(m)[-1]\<close> is the last piece of the split. Its last step,
  the strip of the fences and of a language tag, is \<open>strip_fences\<close>, and the test of
  the first line in it is \<open>looks_like_language_tag\<close>.
\<close>

definition fence :: string where
  "fence = ''```''"

definition newline :: string where
  "newline = [CHR 0x0A]"

definition looks_like_language_tag :: "string \<Rightarrow> bool" where
  "looks_like_language_tag first_line_stripped =
     (length first_line_stripped < 20 \<and> \<not> str_in '' '' first_line_stripped \<and>
      str_isalpha first_line_stripped)"

definition strip_fences :: "string \<Rightarrow> string" where
  "strip_fences cleaned_text =
     (if str_startswith cleaned_text fence \<and> str_endswith cleaned_text fence
      then
        (let cleaned_text = str_strip (str_removesuffix (str_removeprefix cleaned_text fence) fence);
             lines = str_split cleaned_text newline
         in if length lines > 1
            then (let first_line_stripped = str_lower (str_strip (hd lines))
                  in if looks_like_language_tag first_line_stripped
                     then str_strip (str_join newline (tl lines))
                     else cleaned_text)
            else cleaned_text)
      else cleaned_text)"

definition extract_final_response :: "PersonalityState \<Rightarrow> string \<Rightarrow> string" where
  "extract_final_response personality_state raw_text =
     (let cleaned_text = raw_text;
          cleaned_text =
            (if str_in ''USER MESSAGE:'' cleaned_text
             then str_strip (last (str_split cleaned_text ''USER MESSAGE:''))
             else cleaned_text);
          cleaned_text =
            (if str_in (''Respond as '' @ name personality_state @ '','') cleaned_text
             then str_strip
                    (last (str_split cleaned_text (''Respond as '' @ name personality_state @ '','')))
             else cleaned_text);
          cleaned_text =
            (if str_in ''RESPONSE:'' cleaned_text
             then str_strip (last (str_split cleaned_text ''RESPONSE:''))
             else cleaned_text)
      in strip_fences cleaned_text)"

text \<open>
  For the proofs: the three marker cuts have one shape, \<open>cut_marker\<close>; the second
  marker is \<open>respond_as_marker\<close>; a text that starts and ends with a fence is \<open>fenced\<close>.
\<close>

definition cut_marker :: "string \<Rightarrow> string \<Rightarrow> string" where
  "cut_marker marker t = (if str_in marker t then str_strip (last (str_split t marker)) else t)"

definition respond_as_marker :: "PersonalityState \<Rightarrow> string" where
  "respond_as_marker personality_state = ''Respond as '' @ name personality_state @ '',''"

definition fenced :: "string \<Rightarrow> bool" where
  "fenced t = (str_startswith t fence \<and> str_endswith t fence)"

section \<open>Response Generator\<close>

record message =
  role :: string
  content :: string

text \<open>
  What the call \<^verbatim>\<open>openai_client.chat.completions.create(...)\<close> and the read of
  \<^verbatim>\<open>response.choices[0].message.content\<close> can do: deliver the text, raise
  \<^verbatim>\<open>openai.APIStatusError\<close> with a status code, or raise any other exception, given by
  its \<^verbatim>\<open>str\<close>. The client answers a request (the list of messages; the model name and
  the sampling parameters are constants of the source) and records it.
\<close>

datatype llm_result = Completion string | APIStatusError int | OtherException string

record openai_client =
  respond :: "message list \<Rightarrow> llm_result"
  requests :: "message list list"

definition chat_completions_create ::
  "openai_client \<Rightarrow> message list \<Rightarrow> llm_result \<times> openai_client" where
  "chat_completions_create client messages =
     (respond client messages, client\<lparr>requests := requests client @ [messages]\<rparr>)"

definition internal_reasoning_prompt :: "PersonalityState \<Rightarrow> string" where
  "internal_reasoning_prompt personality_state =
     newline @
     ''        INTERNAL THOUGHT PROCESS (not shown to user):'' @ newline @
     ''        You are '' @ name personality_state @
       ''. Think as they would, step by step:'' @ newline @
     ''        - Interpret the user's message.'' @ newline @
     ''        - Reflect on your emotional state: '' @ emotional_state personality_state @
       '' (Intensity: '' @ str_of_int (emotional_intensity personality_state) @ '').'' @ newline @
     ''        - Incorporate these anchors: '' @ str_join '', '' (anchors personality_state) @
       ''.'' @ newline @
     ''        - Consider your reasoning style: '' @ reasoning_style personality_state @
       ''.'' @ newline @
     ''        - Formulate a brief, persona-appropriate response.'' @ newline @
     ''        - Your final output should be ONLY the persona's response, without internal thoughts or extra text.'' @
       newline @
     ''        ''"

definition user_prompt :: "PersonalityState \<Rightarrow> string \<Rightarrow> string" where
  "user_prompt personality_state user_input =
     newline @
     ''        USER MESSAGE: '' @ user_input @ newline @
     ''        Respond as '' @ name personality_state @
       '', considering your thought process and reasoning style.'' @ newline @
     ''        ''"

definition auth_message :: string where
  "auth_message = ''I'm sorry, but my connection to the mind-stream is reporting an invalid access key. Please ensure my operator has set up the OpenAI API key correctly.''"

definition rate_limit_message :: string where
  "rate_limit_message = ''My thoughts are racing, but I'm being asked to slow down. Please give me a moment before asking again.''"

definition bad_request_message :: string where
  "bad_request_message = ''My internal processing is encountering a complex input I cannot fully parse. Could you rephrase or simplify?''"

definition request_messages :: "PersonalityState \<Rightarrow> string \<Rightarrow> message list \<Rightarrow> message list" where
  "request_messages personality_state user_input conversation_history =
     conversation_history @
       [\<lparr>role = ''system'', content = internal_reasoning_prompt personality_state\<rparr>,
        \<lparr>role = ''user'', content = user_prompt personality_state user_input\<rparr>]"

definition generate_persona_response ::
  "openai_client \<Rightarrow> PersonalityState \<Rightarrow> string \<Rightarrow> message list \<Rightarrow> string \<times> openai_client"
where
  "generate_persona_response client personality_state user_input conversation_history =
     (let messages = request_messages personality_state user_input conversation_history;
          (response, client) = chat_completions_create client messages
      in (case response of
            Completion text \<Rightarrow> str_strip text
          | APIStatusError status_code \<Rightarrow>
              (if status_code = 401 then auth_message
               else if status_code = 429 then rate_limit_message
               else if status_code = 400 then bad_request_message
               else ''I seem to have encountered a temporary disruption in my thought process (API Error: ''
                    @ str_of_int status_code @ ''). Please try again shortly.'')
          | OtherException e \<Rightarrow>
              ''I seem to have encountered an unexpected error in my thoughts: '' @ e,
          client))"

section \<open>The handler of a user message\<close>

text \<open>
  The block under \<^verbatim>\<open>if user_input:\<close> of the application: the persona, the session's
  conversation history and last response, and the client, before and after one message.
  A condition on a string, or on \<^verbatim>\<open>None\<close>, holds when the string is there and is
  not empty.
\<close>

record session =
  personality_state :: PersonalityState
  conversation_history :: "message list"
  last_response :: string
  client :: openai_client

text \<open>The \<^verbatim>\<open>else\<close> branch: the Emotion Engine, the LLM call, the cleaner.\<close>

definition llm_path ::
  "session \<Rightarrow> string \<Rightarrow> message list \<Rightarrow> PersonalityState \<times> string \<times> openai_client" where
  "llm_path st user_input history =
     (let state = update_emotional_state (personality_state st) user_input;
          (response_text, cl) = generate_persona_response (client st) state user_input history
      in (state, extract_final_response state response_text, cl))"

definition handle_user_input :: "session \<Rightarrow> string \<Rightarrow> session" where
  "handle_user_input st user_input =
     (if user_input = [] then st
      else
        (let history = conversation_history st @ [\<lparr>role = ''user'', content = user_input\<rparr>];
             heuristic_response = apply_decision_heuristics (personality_state st) user_input;
             (state, response_text, cl) =
               (case heuristic_response of
                  None \<Rightarrow> llm_path st user_input history
                | Some text \<Rightarrow>
                    if text \<noteq> [] then (personality_state st, text, client st)
                    else llm_path st user_input history)
         in \<lparr>personality_state = state,
             conversation_history = history @ [\<lparr>role = ''assistant'', content = response_text\<rparr>],
             last_response = response_text,
             client = cl\<rparr>))"

section \<open>Vocabulary of the properties\<close>

text \<open>The words of the specification: a rule matches an input; a value is clamped.\<close>

definition rule_matches :: "re_atom list \<times> string \<times> int \<Rightarrow> string \<Rightarrow> bool" where
  "rule_matches r user_input = re_search (fst r) (str_lower user_input)"

text \<open>
  The word \<open>w\<close> occurs in \<open>s\<close> as a whole word: somewhere in \<open>s\<close>, with no word
  character just before it and none just after it.
\<close>

definition occurs_as_word :: "string \<Rightarrow> string \<Rightarrow> bool" where
  "occurs_as_word w s =
     (\<exists>pre post. s = pre @ w @ post \<and>
        (pre = [] \<or> \<not> is_word_char (last pre)) \<and>
        (post = [] \<or> \<not> is_word_char (hd post)))"

definition trigger_words :: "string list" where
  "trigger_words = [''death'', ''love'', ''fear'', ''hope'', ''raven'', ''mortality'']"

definition clamp :: "int \<Rightarrow> int \<Rightarrow> int \<Rightarrow> int" where
  "clamp x lo hi = (if x < lo then lo else if hi < x then hi else x)"

text \<open>A sample persona, and the reply of the heuristic of "raven".\<close>

definition poe :: PersonalityState where
  "poe = \<lparr>name = ''Poe'', traits = [''brooding''], anchors = [''raven'', ''night''],
          reasoning_style = ''gothic'', system_prompt = ''You are Edgar Allan Poe.'',
          emotional_state = ''calm'', emotional_intensity = 3\<rparr>"

definition raven_reply :: string where
  "raven_reply = ''The raven, ever watchful, remains a steadfast symbol of my contemplations.''"

text \<open>A session with this persona, whose client answers every request with \<open>r\<close>.\<close>

definition poe_session :: "llm_result \<Rightarrow> session" where
  "poe_session r =
     \<lparr>personality_state = poe,
      conversation_history = [\<lparr>role = ''system'', content = system_prompt poe\<rparr>],
      last_response = [],
      client = \<lparr>respond = (\<lambda>messages. r), requests = []\<rparr>\<rparr>"

section \<open>Evaluation on concrete strings\<close>

lemmas char_class_defs =
  code_point_def in_range_def latin1_letter_def char_isspace_def char_isalpha_def
  char_isupper_def is_word_char_def char_lower_def

lemmas regex_defs = re_search_def word_pattern_def str_lower_def rule_matches_def

section \<open>Properties of the Emotion Engine\<close>

lemma clamp_max_min: "max 0 (min (x + d) 10) = clamp (x + d) 0 10"
  by (simp add: clamp_def)

lemma clamp_bounds: "0 \<le> clamp x 0 10 \<and> clamp x 0 10 \<le> 10"
  by (simp add: clamp_def)

lemma trigger_loop_no_match:
  "\<forall>r\<in>set rules. \<not> re_search (fst r) s \<Longrightarrow> trigger_loop rules s ps = ps"
  by (induction rules s ps rule: trigger_loop.induct) auto

lemma trigger_loop_first_match:
  "\<forall>r\<in>set pre. \<not> re_search (fst r) s \<Longrightarrow> re_search p s \<Longrightarrow>
   trigger_loop (pre @ (p, e, d) # post) s ps =
     ps\<lparr>emotional_state := e, emotional_intensity := clamp (emotional_intensity ps + d) 0 10\<rparr>"
proof (induction pre)
  case Nil
  then show ?case by (simp add: clamp_max_min)
next
  case (Cons r pre)
  obtain p' e' d' where r: "r = (p', e', d')" by (cases r) auto
  with Cons show ?case by simp
qed

lemma trigger_loop_only_match:
  assumes "(p, e, d) \<in> set rules" and "re_search p s"
    and "\<forall>r\<in>set rules. re_search (fst r) s \<longrightarrow> r = (p, e, d)"
  shows "trigger_loop rules s ps =
     ps\<lparr>emotional_state := e, emotional_intensity := clamp (emotional_intensity ps + d) 0 10\<rparr>"
proof -
  from assms(1) obtain pre post where split: "rules = pre @ (p, e, d) # post"
    and first: "(p, e, d) \<notin> set pre"
    by (auto dest: split_list_first)
  have "\<forall>r\<in>set pre. \<not> re_search (fst r) s"
  proof
    fix r assume r: "r \<in> set pre"
    show "\<not> re_search (fst r) s"
    proof
      assume "re_search (fst r) s"
      moreover from r split have "r \<in> set rules" by simp
      ultimately have "r = (p, e, d)" using assms(3) by blast
      with r first show False by blast
    qed
  qed
  then show ?thesis
    unfolding split using assms(2) by (rule trigger_loop_first_match)
qed

lemma trigger_loop_cases:
  "trigger_loop rules s ps = ps \<or>
   (\<exists>e d. trigger_loop rules s ps =
      ps\<lparr>emotional_state := e, emotional_intensity := clamp (emotional_intensity ps + d) 0 10\<rparr>)"
proof (induction rules)
  case Nil
  then show ?case by simp
next
  case (Cons r rules)
  obtain p' e' d' where r: "r = (p', e', d')" by (cases r) auto
  show ?case
  proof (cases "re_search p' s")
    case True
    with r have "trigger_loop (r # rules) s ps =
      ps\<lparr>emotional_state := e', emotional_intensity := clamp (emotional_intensity ps + d') 0 10\<rparr>"
      by (simp add: clamp_max_min)
    then show ?thesis by blast
  next
    case False
    with r have "trigger_loop (r # rules) s ps = trigger_loop rules s ps" by simp
    with Cons show ?thesis by simp
  qed
qed

text \<open>
  Claim C1. When the input matches exactly one rule of the Emotion Engine, the state after
  \<open>update_emotional_state\<close> has that rule's label as \<open>emotional_state\<close> and
  \<open>clamp (old + delta) 0 10\<close> as \<open>emotional_intensity\<close>, every other field as before;
  when the input matches no rule, the state is the one before.
\<close>

theorem update_emotional_state_one_or_no_match:
  "((p, e, d) \<in> set triggers \<and> rule_matches (p, e, d) user_input \<and>
    (\<forall>r\<in>set triggers. rule_matches r user_input \<longrightarrow> r = (p, e, d)) \<longrightarrow>
      update_emotional_state ps user_input =
        ps\<lparr>emotional_state := e,
           emotional_intensity := clamp (emotional_intensity ps + d) 0 10\<rparr>) \<and>
   ((\<forall>r\<in>set triggers. \<not> rule_matches r user_input) \<longrightarrow>
      update_emotional_state ps user_input = ps)"
  unfolding rule_matches_def update_emotional_state_def fst_conv
proof (intro conjI impI)
  assume a: "(p, e, d) \<in> set triggers \<and> re_search p (str_lower user_input) \<and>
    (\<forall>r\<in>set triggers. re_search (fst r) (str_lower user_input) \<longrightarrow> r = (p, e, d))"
  show "trigger_loop triggers (str_lower user_input) ps =
        ps\<lparr>emotional_state := e,
           emotional_intensity := clamp (emotional_intensity ps + d) 0 10\<rparr>"
  proof (rule trigger_loop_only_match)
    show "(p, e, d) \<in> set triggers" using a by (rule conjunct1)
    show "re_search p (str_lower user_input)" using a by blast
    show "\<forall>r\<in>set triggers. re_search (fst r) (str_lower user_input) \<longrightarrow> r = (p, e, d)"
      using a by blast
  qed
next
  assume "\<forall>r\<in>set triggers. \<not> re_search (fst r) (str_lower user_input)"
  then show "trigger_loop triggers (str_lower user_input) ps = ps"
    by (rule trigger_loop_no_match)
qed

theorem update_emotional_state_one_or_no_match_witness:
  "(word_pattern ''fear'', ''anxious'', 1) \<in> set triggers \<and>
   filter (\<lambda>r. rule_matches r ''I FEAR nothing'') triggers =
     [(word_pattern ''fear'', ''anxious'', 1)] \<and>
   update_emotional_state poe ''I FEAR nothing'' =
     poe\<lparr>emotional_state := ''anxious'', emotional_intensity := 4\<rparr> \<and>
   filter (\<lambda>r. rule_matches r ''Good morning'') triggers = [] \<and>
   update_emotional_state poe ''Good morning'' = poe"
proof -
  have one: "(word_pattern ''fear'', ''anxious'', 1) \<in> set triggers \<and>
      rule_matches (word_pattern ''fear'', ''anxious'', 1) ''I FEAR nothing'' \<and>
      (\<forall>r\<in>set triggers. rule_matches r ''I FEAR nothing'' \<longrightarrow>
         r = (word_pattern ''fear'', ''anxious'', 1))"
    by (simp add: triggers_def regex_defs char_class_defs)
  have none: "\<forall>r\<in>set triggers. \<not> rule_matches r ''Good morning''"
    by (simp add: triggers_def regex_defs char_class_defs)
  have filters: "filter (\<lambda>r. rule_matches r ''I FEAR nothing'') triggers =
        [(word_pattern ''fear'', ''anxious'', 1)] \<and>
      filter (\<lambda>r. rule_matches r ''Good morning'') triggers = []"
    by (simp add: triggers_def regex_defs char_class_defs)
  have "clamp (emotional_intensity poe + 1) 0 10 = 4"
    by (simp add: clamp_def poe_def)
  with one none filters
    update_emotional_state_one_or_no_match
      [of "word_pattern ''fear''" "''anxious''" 1 "''I FEAR nothing''" poe]
    update_emotional_state_one_or_no_match
      [of "word_pattern ''fear''" "''anxious''" 1 "''Good morning''" poe]
  show ?thesis by metis
qed

text \<open>
  Claim C10. \<open>update_emotional_state\<close> writes at most the fields \<open>emotional_state\<close>
  and \<open>emotional_intensity\<close>: name, traits, anchors, reasoning style and system prompt are
  the same after every call, whether a rule matches or not.
\<close>

theorem update_emotional_state_frame:
  "name (update_emotional_state ps user_input) = name ps \<and>
   traits (update_emotional_state ps user_input) = traits ps \<and>
   anchors (update_emotional_state ps user_input) = anchors ps \<and>
   reasoning_style (update_emotional_state ps user_input) = reasoning_style ps \<and>
   system_prompt (update_emotional_state ps user_input) = system_prompt ps"
proof -
  from trigger_loop_cases [of triggers "str_lower user_input" ps]
  show ?thesis unfolding update_emotional_state_def by auto
qed

theorem update_emotional_state_frame_witness:
  "name (update_emotional_state poe ''Death comes'') = ''Poe'' \<and>
   traits (update_emotional_state poe ''Death comes'') = [''brooding''] \<and>
   anchors (update_emotional_state poe ''Death comes'') = [''raven'', ''night''] \<and>
   reasoning_style (update_emotional_state poe ''Death comes'') = ''gothic'' \<and>
   system_prompt (update_emotional_state poe ''Death comes'') = ''You are Edgar Allan Poe.'' \<and>
   emotional_state (update_emotional_state poe ''Death comes'') = ''melancholy''"
proof -
  have "emotional_state (update_emotional_state poe ''Death comes'') = ''melancholy''"
    by (simp add: update_emotional_state_def triggers_def regex_defs char_class_defs)
  with update_emotional_state_frame [of poe "''Death comes''"]
  show ?thesis by (simp add: poe_def)
qed

text \<open>
  Claim C3, as the specification states it, at the input "fear and hope" from intensity
  0: the word "hope" occurs, but the rule of "fear" stands before the rule of "hope" in
  \<open>triggers\<close> and is the one applied, so the state becomes "anxious" and the intensity
  1, not 0.
\<close>

theorem fear_and_hope_counterexample:
  "emotional_intensity (poe\<lparr>emotional_intensity := 0\<rparr>) = 0 \<and>
   re_search (word_pattern ''hope'') (str_lower ''fear and hope'') \<and>
   re_search (word_pattern ''fear'') (str_lower ''fear and hope'') \<and>
   emotional_state (update_emotional_state (poe\<lparr>emotional_intensity := 0\<rparr>) ''fear and hope'') =
     ''anxious'' \<and>
   emotional_intensity (update_emotional_state (poe\<lparr>emotional_intensity := 0\<rparr>) ''fear and hope'') =
     1 \<and>
   emotional_intensity (update_emotional_state (poe\<lparr>emotional_intensity := 0\<rparr>) ''fear and hope'') \<noteq>
     0"
  by (simp add: update_emotional_state_def triggers_def regex_defs char_class_defs poe_def)

text \<open>
  Claim C3, amended. From an \<open>emotional_intensity\<close> in [0,10], \<open>update_emotional_state\<close>
  gives an \<open>emotional_intensity\<close> in [0,10], on every input. At intensity 0, an input
  with the word "hope" and none of the words of the rules before it ("death", "love",
  "fear") leaves the intensity at 0, not at -1; and no input with the word "hope" takes
  the intensity from 0 to -1.
\<close>

theorem emotional_intensity_stays_in_range:
  "(0 \<le> emotional_intensity ps \<and> emotional_intensity ps \<le> 10 \<longrightarrow>
      0 \<le> emotional_intensity (update_emotional_state ps user_input) \<and>
      emotional_intensity (update_emotional_state ps user_input) \<le> 10) \<and>
   (emotional_intensity ps = 0 \<and>
    re_search (word_pattern ''hope'') (str_lower user_input) \<and>
    \<not> re_search (word_pattern ''death'') (str_lower user_input) \<and>
    \<not> re_search (word_pattern ''love'') (str_lower user_input) \<and>
    \<not> re_search (word_pattern ''fear'') (str_lower user_input) \<longrightarrow>
      emotional_intensity (update_emotional_state ps user_input) = 0) \<and>
   (emotional_intensity ps = 0 \<and>
    re_search (word_pattern ''hope'') (str_lower user_input) \<longrightarrow>
      emotional_intensity (update_emotional_state ps user_input) \<noteq> - 1 \<and>
      0 \<le> emotional_intensity (update_emotional_state ps user_input))"
proof -
  have range: "0 \<le> emotional_intensity (update_emotional_state ps user_input) \<and>
      emotional_intensity (update_emotional_state ps user_input) \<le> 10"
    if "0 \<le> emotional_intensity ps \<and> emotional_intensity ps \<le> 10"
    using that trigger_loop_cases [of triggers "str_lower user_input" ps] clamp_bounds
    unfolding update_emotional_state_def by auto
  have hope: "emotional_intensity (update_emotional_state ps user_input) = 0"
    if "emotional_intensity ps = 0 \<and>
      re_search (word_pattern ''hope'') (str_lower user_input) \<and>
      \<not> re_search (word_pattern ''death'') (str_lower user_input) \<and>
      \<not> re_search (word_pattern ''love'') (str_lower user_input) \<and>
      \<not> re_search (word_pattern ''fear'') (str_lower user_input)"
    using that by (simp add: update_emotional_state_def triggers_def)
  have never: "emotional_intensity (update_emotional_state ps user_input) \<noteq> - 1 \<and>
      0 \<le> emotional_intensity (update_emotional_state ps user_input)"
    if "emotional_intensity ps = 0 \<and> re_search (word_pattern ''hope'') (str_lower user_input)"
    using that range by auto
  from range hope never show ?thesis by blast
qed

theorem emotional_intensity_stays_in_range_witness:
  "0 \<le> emotional_intensity (poe\<lparr>emotional_intensity := 0\<rparr>) \<and>
   emotional_intensity (poe\<lparr>emotional_intensity := 0\<rparr>) \<le> 10 \<and>
   re_search (word_pattern ''hope'') (str_lower ''I have hope'') \<and>
   \<not> re_search (word_pattern ''death'') (str_lower ''I have hope'') \<and>
   \<not> re_search (word_pattern ''love'') (str_lower ''I have hope'') \<and>
   \<not> re_search (word_pattern ''fear'') (str_lower ''I have hope'') \<and>
   emotional_intensity (update_emotional_state (poe\<lparr>emotional_intensity := 0\<rparr>) ''I have hope'') = 0 \<and>
   emotional_intensity (update_emotional_state (poe\<lparr>emotional_intensity := 0\<rparr>) ''I have hope'') \<le> 10"
proof -
  have "re_search (word_pattern ''hope'') (str_lower ''I have hope'') \<and>
   \<not> re_search (word_pattern ''death'') (str_lower ''I have hope'') \<and>
   \<not> re_search (word_pattern ''love'') (str_lower ''I have hope'') \<and>
   \<not> re_search (word_pattern ''fear'') (str_lower ''I have hope'')"
    by (simp add: regex_defs char_class_defs)
  with emotional_intensity_stays_in_range [of "poe\<lparr>emotional_intensity := 0\<rparr>" "''I have hope''"]
  show ?thesis by simp
qed

section \<open>Word boundaries\<close>

lemma re_match_literals:
  "re_match_here (map Lit w @ [Boundary]) prev s \<longleftrightarrow>
     (\<exists>post. s = w @ post \<and>
        is_word_opt (if w = [] then prev else Some (last w)) \<noteq> is_word_opt (next_char post))"
proof (induction w arbitrary: prev s)
  case Nil
  then show ?case by simp
next
  case (Cons c w)
  show ?case
  proof (cases s)
    case Nil
    then show ?thesis by simp
  next
    case (Cons x xs)
    with Cons.IH [of "Some x" xs] show ?thesis by auto
  qed
qed

lemma re_search_from_iff:
  "re_search_from p prev s \<longleftrightarrow>
     (\<exists>pre post. s = pre @ post \<and>
        re_match_here p (if pre = [] then prev else Some (last pre)) post)"
proof (induction s arbitrary: prev)
  case Nil
  then show ?case by simp
next
  case (Cons c cs)
  show ?case
  proof
    assume "re_search_from p prev (c # cs)"
    then consider "re_match_here p prev (c # cs)" | "re_search_from p (Some c) cs" by auto
    then show "\<exists>pre post. c # cs = pre @ post \<and>
        re_match_here p (if pre = [] then prev else Some (last pre)) post"
    proof cases
      case 1
      then have "c # cs = [] @ (c # cs) \<and>
          re_match_here p (if [] = ([]::string) then prev else Some (last [])) (c # cs)"
        by simp
      then show ?thesis by blast
    next
      case 2
      with Cons.IH [of "Some c"] obtain pre post where cs: "cs = pre @ post"
        and m: "re_match_here p (if pre = [] then Some c else Some (last pre)) post"
        by blast
      from cs m have "c # cs = (c # pre) @ post \<and>
          re_match_here p (if c # pre = [] then prev else Some (last (c # pre))) post"
        by (cases "pre = []") simp_all
      then show ?thesis by blast
    qed
  next
    assume "\<exists>pre post. c # cs = pre @ post \<and>
        re_match_here p (if pre = [] then prev else Some (last pre)) post"
    then obtain pre post where eq: "c # cs = pre @ post"
      and m: "re_match_here p (if pre = [] then prev else Some (last pre)) post"
      by blast
    show "re_search_from p prev (c # cs)"
    proof (cases pre)
      case Nil
      with eq have "post = c # cs" by simp
      with m Nil show ?thesis by simp
    next
      case (Cons x pre')
      with eq have x: "x = c" and cs: "cs = pre' @ post" by simp_all
      from m Cons x have "re_match_here p (if pre' = [] then Some c else Some (last pre')) post"
        by (cases "pre' = []") simp_all
      with cs Cons.IH [of "Some c"] have "re_search_from p (Some c) cs" by blast
      then show ?thesis by simp
    qed
  qed
qed

lemma not_word_before: "\<not> is_word_opt (if pre = [] then None else Some (last pre)) \<longleftrightarrow>
    (pre = [] \<or> \<not> is_word_char (last pre))"
  by simp

lemma not_word_after: "\<not> is_word_opt (next_char post) \<longleftrightarrow> (post = [] \<or> \<not> is_word_char (hd post))"
  by (cases post) simp_all

lemma re_search_word_pattern:
  assumes "w \<noteq> []" and "is_word_char (hd w)" and "is_word_char (last w)"
  shows "re_search (word_pattern w) s \<longleftrightarrow> occurs_as_word w s"
proof -
  have here: "re_match_here (word_pattern w) prev t \<longleftrightarrow>
      (\<exists>post. t = w @ post \<and> \<not> is_word_opt prev \<and> \<not> is_word_opt (next_char post))"
    for prev t
  proof -
    have "next_char (w @ post) = Some (hd w)" for post
      using assms(1) by (cases w) simp_all
    with assms show ?thesis
      unfolding word_pattern_def by (auto simp: re_match_literals)
  qed
  show ?thesis
    unfolding re_search_def occurs_as_word_def re_search_from_iff here
      not_word_after [symmetric] not_word_before [symmetric]
    by blast
qed

lemma trigger_word_shape:
  "w \<in> set trigger_words \<Longrightarrow> w \<noteq> [] \<and> is_word_char (hd w) \<and> is_word_char (last w)"
  by (auto simp: trigger_words_def char_class_defs)

lemma trigger_word_search:
  "w \<in> set trigger_words \<Longrightarrow> re_search (word_pattern w) s \<longleftrightarrow> occurs_as_word w s"
  using trigger_word_shape [of w] re_search_word_pattern [of w s] by blast

lemma triggers_patterns: "map fst triggers = map word_pattern trigger_words"
  by (simp add: triggers_def trigger_words_def)


lemma no_trigger_word_no_match:
  assumes "\<forall>w\<in>set trigger_words. \<not> occurs_as_word w s"
  shows "\<forall>r\<in>set triggers. \<not> re_search (fst r) s"
proof
  fix r assume "r \<in> set triggers"
  then have "fst r \<in> set (map fst triggers)" by simp
  then obtain w where w: "w \<in> set trigger_words" and r: "fst r = word_pattern w"
    unfolding triggers_patterns by auto
  from w assms have "\<not> occurs_as_word w s" by blast
  with w r show "\<not> re_search (fst r) s" by (simp add: trigger_word_search)
qed

text \<open>
  Claim C8. The Emotion Engine matches whole words, without regard to case: each rule
  matches an input exactly when its trigger word occurs in the lower-cased input with
  no word character next to it on either side. An input with the word "death" gets the
  melancholy rule; an input in which no trigger word occurs as a whole word, such as
  "deathly", matches no rule and leaves the state as it was.
\<close>

theorem emotion_engine_matches_whole_words:
  "(\<forall>(w, r)\<in>set (zip trigger_words triggers).
      fst r = word_pattern w \<and>
      (rule_matches r user_input \<longleftrightarrow> occurs_as_word w (str_lower user_input))) \<and>
   length trigger_words = length triggers \<and>
   (occurs_as_word ''death'' (str_lower user_input) \<longrightarrow>
      update_emotional_state ps user_input =
        ps\<lparr>emotional_state := ''melancholy'',
           emotional_intensity := clamp (emotional_intensity ps + 2) 0 10\<rparr>) \<and>
   ((\<forall>w\<in>set trigger_words. \<not> occurs_as_word w (str_lower user_input)) \<longrightarrow>
      update_emotional_state ps user_input = ps) \<and>
   \<not> occurs_as_word ''death'' (str_lower ''deathly'') \<and>
   update_emotional_state ps ''deathly'' = ps"
proof -
  have pairs: "\<forall>(w, r)\<in>set (zip trigger_words triggers).
      fst r = word_pattern w \<and>
      (rule_matches r user_input \<longleftrightarrow> occurs_as_word w (str_lower user_input))"
  proof -
    have shape: "fst r = word_pattern w \<and> w \<in> set trigger_words"
      if "(w, r) \<in> set (zip trigger_words triggers)" for w r
      using that by (auto simp: trigger_words_def triggers_def)
    have "fst r = word_pattern w \<and>
        (rule_matches r user_input \<longleftrightarrow> occurs_as_word w (str_lower user_input))"
      if "(w, r) \<in> set (zip trigger_words triggers)" for w r
    proof -
      from shape [OF that] have "fst r = word_pattern w" and "w \<in> set trigger_words"
        by simp_all
      then show ?thesis
        unfolding rule_matches_def by (simp add: trigger_word_search)
    qed
    then show ?thesis by blast
  qed
  have len: "length trigger_words = length triggers"
    by (simp add: trigger_words_def triggers_def)
  have death: "update_emotional_state ps user_input =
        ps\<lparr>emotional_state := ''melancholy'',
           emotional_intensity := clamp (emotional_intensity ps + 2) 0 10\<rparr>"
    if "occurs_as_word ''death'' (str_lower user_input)"
  proof -
    have "''death'' \<in> set trigger_words" by (simp add: trigger_words_def)
    with that have "re_search (word_pattern ''death'') (str_lower user_input)"
      by (simp add: trigger_word_search)
    then show ?thesis
      by (simp add: update_emotional_state_def triggers_def clamp_max_min)
  qed
  have none: "update_emotional_state ps user_input = ps"
    if "\<forall>w\<in>set trigger_words. \<not> occurs_as_word w (str_lower user_input)"
    unfolding update_emotional_state_def
    using that by (intro trigger_loop_no_match no_trigger_word_no_match)
  have "\<not> re_search (word_pattern ''death'') (str_lower ''deathly'')"
    by (simp add: regex_defs char_class_defs)
  then have deathly: "\<not> occurs_as_word ''death'' (str_lower ''deathly'')"
    by (simp add: trigger_word_search trigger_words_def)
  have unchanged: "update_emotional_state ps ''deathly'' = ps"
    by (simp add: update_emotional_state_def triggers_def regex_defs char_class_defs)
  from pairs len death none deathly unchanged show ?thesis by blast
qed

theorem emotion_engine_matches_whole_words_witness:
  "occurs_as_word ''death'' (str_lower ''DEATH, be not proud'') \<and>
   update_emotional_state poe ''DEATH, be not proud'' =
     poe\<lparr>emotional_state := ''melancholy'', emotional_intensity := 5\<rparr> \<and>
   list_all (\<lambda>w. \<not> occurs_as_word w (str_lower ''A deathly silence'')) trigger_words \<and>
   update_emotional_state poe ''A deathly silence'' = poe"
proof -
  note thm1 = emotion_engine_matches_whole_words [of "''DEATH, be not proud''" poe]
  note thm2 = emotion_engine_matches_whole_words [of "''A deathly silence''" poe]
  have "rule_matches (word_pattern ''death'', ''melancholy'', 2) ''DEATH, be not proud''"
    by (simp add: regex_defs char_class_defs)
  moreover have "(''death'', (word_pattern ''death'', ''melancholy'', 2))
      \<in> set (zip trigger_words triggers)"
    by (simp add: trigger_words_def triggers_def)
  ultimately have occ: "occurs_as_word ''death'' (str_lower ''DEATH, be not proud'')"
    using thm1 by blast
  have "list_all (\<lambda>r. \<not> rule_matches r ''A deathly silence'') triggers"
    by (simp add: triggers_def regex_defs char_class_defs)
  then have no: "\<forall>r\<in>set triggers. \<not> rule_matches r ''A deathly silence''"
    by (simp add: list_all_iff)
  have absent: "\<forall>w\<in>set trigger_words. \<not> occurs_as_word w (str_lower ''A deathly silence'')"
  proof
    fix w assume "w \<in> set trigger_words"
    then obtain r where wr: "(w, r) \<in> set (zip trigger_words triggers)"
      using thm2 by (metis in_set_impl_in_set_zip1)
    then have "r \<in> set triggers" by (rule set_zip_rightD)
    with no have "\<not> rule_matches r ''A deathly silence''" by blast
    with wr thm2 show "\<not> occurs_as_word w (str_lower ''A deathly silence'')" by blast
  qed
  have "clamp (emotional_intensity poe + 2) 0 10 = 5" by (simp add: clamp_def poe_def)
  with occ absent thm1 thm2 show ?thesis by (simp add: list_all_iff)
qed

section \<open>Priority among the rules\<close>

text \<open>
  Claim C2, as the specification states it, at the input "hope and mortality": both
  words occur and none of an earlier rule, and the state becomes "reflective" with
  intensity 3 - 1, not "introspective" with intensity 3 + 2. In \<open>triggers\<close> the rule of
  "hope" stands before the rule of "mortality".
\<close>

theorem hope_and_mortality_counterexample:
  "rule_matches (word_pattern ''mortality'', ''introspective'', 2) ''hope and mortality'' \<and>
   rule_matches (word_pattern ''hope'', ''reflective'', - 1) ''hope and mortality'' \<and>
   \<not> rule_matches (word_pattern ''death'', ''melancholy'', 2) ''hope and mortality'' \<and>
   \<not> rule_matches (word_pattern ''love'', ''nostalgic'', 1) ''hope and mortality'' \<and>
   \<not> rule_matches (word_pattern ''fear'', ''anxious'', 1) ''hope and mortality'' \<and>
   emotional_intensity poe = 3 \<and>
   emotional_state (update_emotional_state poe ''hope and mortality'') = ''reflective'' \<and>
   emotional_intensity (update_emotional_state poe ''hope and mortality'') = 2 \<and>
   emotional_state (update_emotional_state poe ''hope and mortality'') \<noteq> ''introspective'' \<and>
   emotional_intensity (update_emotional_state poe ''hope and mortality'') \<noteq> clamp (3 + 2) 0 10"
  by (simp add: update_emotional_state_def triggers_def regex_defs char_class_defs poe_def
      clamp_def)

text \<open>
  Claim C2, amended. Of the rules an input matches, only the one listed first in
  \<open>triggers\<close> (death, love, fear, hope, raven, mortality) is applied. For an input with
  the words "mortality" and "hope": the state becomes "melancholy" only if "death"
  matched too, and with none of the rules before "hope" matching (death, love, fear) the
  rule of "hope" is applied: the state becomes "reflective" with intensity
  \<open>clamp (old - 1) 0 10\<close>.
\<close>

theorem first_listed_rule_wins:
  "(triggers = pre @ (p, e, d) # post \<and> (\<forall>r\<in>set pre. \<not> rule_matches r user_input) \<and>
    rule_matches (p, e, d) user_input \<longrightarrow>
      update_emotional_state ps user_input =
        ps\<lparr>emotional_state := e,
           emotional_intensity := clamp (emotional_intensity ps + d) 0 10\<rparr>) \<and>
   (rule_matches (word_pattern ''hope'', ''reflective'', - 1) user_input \<and>
    rule_matches (word_pattern ''mortality'', ''introspective'', 2) user_input \<longrightarrow>
      (emotional_state (update_emotional_state ps user_input) = ''melancholy'' \<longrightarrow>
         rule_matches (word_pattern ''death'', ''melancholy'', 2) user_input) \<and>
      (\<not> rule_matches (word_pattern ''death'', ''melancholy'', 2) user_input \<and>
       \<not> rule_matches (word_pattern ''love'', ''nostalgic'', 1) user_input \<and>
       \<not> rule_matches (word_pattern ''fear'', ''anxious'', 1) user_input \<longrightarrow>
         update_emotional_state ps user_input =
           ps\<lparr>emotional_state := ''reflective'',
              emotional_intensity := clamp (emotional_intensity ps - 1) 0 10\<rparr>))"
proof -
  have general: "update_emotional_state ps user_input =
        ps\<lparr>emotional_state := e,
           emotional_intensity := clamp (emotional_intensity ps + d) 0 10\<rparr>"
    if "triggers = pre @ (p, e, d) # post \<and> (\<forall>r\<in>set pre. \<not> rule_matches r user_input) \<and>
      rule_matches (p, e, d) user_input"
  proof -
    from that have "\<forall>r\<in>set pre. \<not> re_search (fst r) (str_lower user_input)"
      and "re_search p (str_lower user_input)" and eq: "triggers = pre @ (p, e, d) # post"
      unfolding rule_matches_def by simp_all
    then show ?thesis
      unfolding update_emotional_state_def eq by (intro trigger_loop_first_match)
  qed
  have melancholy: "rule_matches (word_pattern ''death'', ''melancholy'', 2) user_input"
    if "rule_matches (word_pattern ''hope'', ''reflective'', - 1) user_input"
      and "emotional_state (update_emotional_state ps user_input) = ''melancholy''"
    using that
    by (simp add: update_emotional_state_def triggers_def rule_matches_def split: if_splits)
  have hope: "update_emotional_state ps user_input =
           ps\<lparr>emotional_state := ''reflective'',
              emotional_intensity := clamp (emotional_intensity ps - 1) 0 10\<rparr>"
    if "rule_matches (word_pattern ''hope'', ''reflective'', - 1) user_input"
      and "\<not> rule_matches (word_pattern ''death'', ''melancholy'', 2) user_input \<and>
       \<not> rule_matches (word_pattern ''love'', ''nostalgic'', 1) user_input \<and>
       \<not> rule_matches (word_pattern ''fear'', ''anxious'', 1) user_input"
    using that clamp_max_min [of "emotional_intensity ps" "- 1"]
    by (simp add: update_emotional_state_def triggers_def rule_matches_def)
  from general melancholy hope show ?thesis by blast
qed

theorem first_listed_rule_wins_witness:
  "triggers = take 3 triggers @ (word_pattern ''hope'', ''reflective'', - 1) # drop 4 triggers \<and>
   filter (\<lambda>r. rule_matches r ''hope and mortality'') (take 3 triggers) = [] \<and>
   rule_matches (word_pattern ''hope'', ''reflective'', - 1) ''hope and mortality'' \<and>
   rule_matches (word_pattern ''mortality'', ''introspective'', 2) ''hope and mortality'' \<and>
   update_emotional_state poe ''hope and mortality'' =
     poe\<lparr>emotional_state := ''reflective'', emotional_intensity := 2\<rparr>"
proof -
  have split: "triggers =
      take 3 triggers @ (word_pattern ''hope'', ''reflective'', - 1) # drop 4 triggers"
    by (simp add: triggers_def)
  have before: "filter (\<lambda>r. rule_matches r ''hope and mortality'') (take 3 triggers) = []"
    by (simp add: triggers_def regex_defs char_class_defs)
  then have none: "\<forall>r\<in>set (take 3 triggers). \<not> rule_matches r ''hope and mortality''"
    by (simp add: filter_empty_conv)
  have both: "rule_matches (word_pattern ''hope'', ''reflective'', - 1) ''hope and mortality'' \<and>
      rule_matches (word_pattern ''mortality'', ''introspective'', 2) ''hope and mortality''"
    by (simp add: regex_defs char_class_defs)
  have "clamp (emotional_intensity poe + - 1) 0 10 = 2" by (simp add: clamp_def poe_def)
  with split before none both
    first_listed_rule_wins [of "take 3 triggers" "word_pattern ''hope''" "''reflective''" "- 1"
      "drop 4 triggers" "''hope and mortality''" poe]
  show ?thesis by metis
qed

section \<open>Substrings\<close>

lemma str_startswith_prefix: "str_startswith s p \<longleftrightarrow> prefix p s"
proof
  assume "str_startswith s p"
  then have "p = take (length p) s" by (simp add: str_startswith_def)
  then show "prefix p s" by (metis take_is_prefix)
next
  assume "prefix p s"
  then obtain r where "s = p @ r" by (auto simp: prefix_def)
  then show "str_startswith s p" by (simp add: str_startswith_def)
qed

lemma str_endswith_suffix: "str_endswith s p \<longleftrightarrow> suffix p s"
proof
  assume "str_endswith s p"
  then have "p = drop (length s - length p) s" by (simp add: str_endswith_def)
  then show "suffix p s" by (metis suffix_drop)
next
  assume "suffix p s"
  then obtain r where "s = r @ p" by (auto simp: suffix_def)
  then show "str_endswith s p" by (simp add: str_endswith_def)
qed

lemma str_in_sublist: "str_in sub s \<longleftrightarrow> sublist sub s"
  by (induction s) (simp_all add: sublist_Cons_right str_startswith_prefix)

lemma sublist_append_left: "sublist (a @ b) t \<Longrightarrow> sublist a t"
  by (auto simp: sublist_def)

lemma str_in_append_left: "\<not> str_in a t \<Longrightarrow> \<not> str_in (a @ b) t"
  unfolding str_in_sublist by (blast dest: sublist_append_left)

section \<open>Properties of the Heuristic Responder\<close>

lemmas string_eval_defs = str_startswith_def str_endswith_def str_lower_def str_strip_def

lemma apply_decision_heuristics_chain:
  "apply_decision_heuristics ps user_input =
     (if sublist ''death'' (str_lower user_input)
      then Some (''Ah, death! The eternal muse of my musings. '' @ name ps @
                 '' cannot help but dwell upon its mystery.'')
      else if sublist ''love'' (str_lower user_input)
      then Some ''Love, that bittersweet elixir, fills my heart with both longing and sorrow.''
      else if sublist ''raven'' (str_lower user_input)
      then Some ''The raven, ever watchful, remains a steadfast symbol of my contemplations.''
      else None)"
  by (simp add: apply_decision_heuristics_def heuristics_def str_in_sublist)

lemma llm_path_taken:
  assumes "user_input \<noteq> []"
    and "apply_decision_heuristics (personality_state st) user_input = None"
  shows "handle_user_input st user_input =
     (let history = conversation_history st @ [\<lparr>role = ''user'', content = user_input\<rparr>];
          state = update_emotional_state (personality_state st) user_input;
          messages = request_messages state user_input history;
          response_text = extract_final_response state
            (fst (generate_persona_response (client st) state user_input history))
      in \<lparr>personality_state = state,
          conversation_history = history @ [\<lparr>role = ''assistant'', content = response_text\<rparr>],
          last_response = response_text,
          client = (client st)\<lparr>requests := requests (client st) @ [messages]\<rparr>\<rparr>)"
  using assms
  by (simp add: handle_user_input_def llm_path_def generate_persona_response_def
      chat_completions_create_def Let_def split: prod.splits)

text \<open>
  Claim C6. \<open>apply_decision_heuristics\<close> looks for the triggers "death", "love" and
  "raven", in this order, as substrings of the lower-cased input, and returns the
  template of the first one found, the one of "death" with the persona's name in it; it
  returns \<open>None\<close> when none is a substring. On \<open>None\<close> the handler of the message takes
  the LLM path: it runs the Emotion Engine and sends one request to the client.
\<close>

theorem apply_decision_heuristics_first_substring:
  "apply_decision_heuristics ps user_input =
     (if sublist ''death'' (str_lower user_input)
      then Some (''Ah, death! The eternal muse of my musings. '' @ name ps @
                 '' cannot help but dwell upon its mystery.'')
      else if sublist ''love'' (str_lower user_input)
      then Some ''Love, that bittersweet elixir, fills my heart with both longing and sorrow.''
      else if sublist ''raven'' (str_lower user_input)
      then Some ''The raven, ever watchful, remains a steadfast symbol of my contemplations.''
      else None) \<and>
   map fst heuristics = [''death'', ''love'', ''raven''] \<and>
   (user_input \<noteq> [] \<and> apply_decision_heuristics (personality_state st) user_input = None \<longrightarrow>
      personality_state (handle_user_input st user_input) =
        update_emotional_state (personality_state st) user_input \<and>
      requests (client (handle_user_input st user_input)) =
        requests (client st) @
          [request_messages (update_emotional_state (personality_state st) user_input) user_input
             (conversation_history st @ [\<lparr>role = ''user'', content = user_input\<rparr>])])"
proof -
  have chain: "apply_decision_heuristics ps user_input =
     (if sublist ''death'' (str_lower user_input)
      then Some (''Ah, death! The eternal muse of my musings. '' @ name ps @
                 '' cannot help but dwell upon its mystery.'')
      else if sublist ''love'' (str_lower user_input)
      then Some ''Love, that bittersweet elixir, fills my heart with both longing and sorrow.''
      else if sublist ''raven'' (str_lower user_input)
      then Some ''The raven, ever watchful, remains a steadfast symbol of my contemplations.''
      else None)"
    by (rule apply_decision_heuristics_chain)
  have order: "map fst heuristics = [''death'', ''love'', ''raven'']"
    by (simp add: heuristics_def)
  have caller: "personality_state (handle_user_input st user_input) =
        update_emotional_state (personality_state st) user_input \<and>
      requests (client (handle_user_input st user_input)) =
        requests (client st) @
          [request_messages (update_emotional_state (personality_state st) user_input) user_input
             (conversation_history st @ [\<lparr>role = ''user'', content = user_input\<rparr>])]"
    if "user_input \<noteq> [] \<and> apply_decision_heuristics (personality_state st) user_input = None"
    using that by (simp add: llm_path_taken Let_def)
  from chain order caller show ?thesis by blast
qed

theorem apply_decision_heuristics_first_substring_witness:
  "apply_decision_heuristics poe ''Deathly hallows, RAVEN'' =
     Some ''Ah, death! The eternal muse of my musings. Poe cannot help but dwell upon its mystery.'' \<and>
   apply_decision_heuristics poe ''Hello there'' = None \<and>
   personality_state (handle_user_input (poe_session (Completion ''Greetings.'')) ''Hello there'') =
     update_emotional_state poe ''Hello there'' \<and>
   length (requests (client (handle_user_input (poe_session (Completion ''Greetings.''))
     ''Hello there''))) = 1"
proof -
  have found: "sublist ''death'' (str_lower ''Deathly hallows, RAVEN'')"
    unfolding str_in_sublist [symmetric] by (simp add: string_eval_defs char_class_defs)
  have absent: "\<not> sublist ''death'' (str_lower ''Hello there'') \<and>
      \<not> sublist ''love'' (str_lower ''Hello there'') \<and>
      \<not> sublist ''raven'' (str_lower ''Hello there'')"
    unfolding str_in_sublist [symmetric] by (simp add: string_eval_defs char_class_defs)
  note thm1 = apply_decision_heuristics_first_substring
    [of poe "''Deathly hallows, RAVEN''" "poe_session (Completion ''Greetings.'')"]
  note thm2 = apply_decision_heuristics_first_substring
    [of poe "''Hello there''" "poe_session (Completion ''Greetings.'')"]
  from found thm1 have first: "apply_decision_heuristics poe ''Deathly hallows, RAVEN'' =
     Some ''Ah, death! The eternal muse of my musings. Poe cannot help but dwell upon its mystery.''"
    by (simp add: poe_def)
  from absent thm2 have none: "apply_decision_heuristics poe ''Hello there'' = None"
    by simp
  have "personality_state (poe_session (Completion ''Greetings.'')) = poe"
    and "requests (client (poe_session (Completion ''Greetings.''))) = []"
    by (simp_all add: poe_session_def)
  with none thm2 first show ?thesis by simp
qed

section \<open>Properties of the handler of a user message\<close>

lemma raven_heuristic:
  "apply_decision_heuristics ps ''Tell me about the raven outside'' = Some raven_reply"
proof -
  have "\<not> sublist ''death'' (str_lower ''Tell me about the raven outside'') \<and>
      \<not> sublist ''love'' (str_lower ''Tell me about the raven outside'') \<and>
      sublist ''raven'' (str_lower ''Tell me about the raven outside'')"
    unfolding str_in_sublist [symmetric] by (simp add: string_eval_defs char_class_defs)
  then show ?thesis by (simp add: apply_decision_heuristics_chain raven_reply_def)
qed

text \<open>
  Claim C7. On the input "Tell me about the raven outside" the handler answers with the
  template of "raven": the reply enters the history after the user's message, the
  persona is the one before (so its \<open>emotional_state\<close> and \<open>emotional_intensity\<close>, which
  the Emotion Engine would have set to "curious" and raised), and no request has gone to
  the client. This holds for every session, the one whose persona is named "Poe" included.
\<close>

theorem raven_input_short_circuits:
  "handle_user_input st ''Tell me about the raven outside'' =
     st\<lparr>conversation_history := conversation_history st @
          [\<lparr>role = ''user'', content = ''Tell me about the raven outside''\<rparr>,
           \<lparr>role = ''assistant'',
            content = ''The raven, ever watchful, remains a steadfast symbol of my contemplations.''\<rparr>],
        last_response :=
          ''The raven, ever watchful, remains a steadfast symbol of my contemplations.''\<rparr> \<and>
   emotional_state (personality_state (handle_user_input st ''Tell me about the raven outside'')) =
     emotional_state (personality_state st) \<and>
   emotional_intensity (personality_state (handle_user_input st ''Tell me about the raven outside'')) =
     emotional_intensity (personality_state st) \<and>
   requests (client (handle_user_input st ''Tell me about the raven outside'')) =
     requests (client st) \<and>
   update_emotional_state (personality_state st) ''Tell me about the raven outside'' =
     (personality_state st)\<lparr>emotional_state := ''curious'',
        emotional_intensity := clamp (emotional_intensity (personality_state st) + 1) 0 10\<rparr>"
proof -
  have handled: "handle_user_input st ''Tell me about the raven outside'' =
     st\<lparr>conversation_history := conversation_history st @
          [\<lparr>role = ''user'', content = ''Tell me about the raven outside''\<rparr>,
           \<lparr>role = ''assistant'', content = raven_reply\<rparr>],
        last_response := raven_reply\<rparr>"
    by (cases st) (simp add: handle_user_input_def raven_heuristic, simp add: raven_reply_def)
  have engine: "update_emotional_state (personality_state st) ''Tell me about the raven outside'' =
     (personality_state st)\<lparr>emotional_state := ''curious'',
        emotional_intensity := clamp (emotional_intensity (personality_state st) + 1) 0 10\<rparr>"
    by (simp add: update_emotional_state_def triggers_def regex_defs char_class_defs
        clamp_max_min)
  from handled engine show ?thesis by (simp add: raven_reply_def)
qed

theorem raven_input_short_circuits_witness:
  "name (personality_state (poe_session (Completion ''unused''))) = ''Poe'' \<and>
   last_response (handle_user_input (poe_session (Completion ''unused''))
     ''Tell me about the raven outside'') =
     ''The raven, ever watchful, remains a steadfast symbol of my contemplations.'' \<and>
   personality_state (handle_user_input (poe_session (Completion ''unused''))
     ''Tell me about the raven outside'') = poe \<and>
   requests (client (handle_user_input (poe_session (Completion ''unused''))
     ''Tell me about the raven outside'')) = [] \<and>
   emotional_state (update_emotional_state poe ''Tell me about the raven outside'') \<noteq>
     emotional_state poe"
  using raven_input_short_circuits [of "poe_session (Completion ''unused'')"]
  by (simp add: poe_session_def poe_def)

section \<open>Properties of the cleaner\<close>

lemma extract_final_response_cuts:
  "extract_final_response ps raw =
     strip_fences (cut_marker ''RESPONSE:''
       (cut_marker (respond_as_marker ps) (cut_marker ''USER MESSAGE:'' raw)))"
  by (simp add: extract_final_response_def cut_marker_def respond_as_marker_def Let_def)

lemma cut_marker_absent: "\<not> str_in m t \<Longrightarrow> cut_marker m t = t"
  by (simp add: cut_marker_def)

lemma strip_fences_not_fenced: "\<not> fenced t \<Longrightarrow> strip_fences t = t"
  unfolding strip_fences_def fenced_def by (rule if_not_P)

lemma respond_as_absent: "\<not> str_in ''Respond as '' t \<Longrightarrow> \<not> str_in (respond_as_marker ps) t"
  unfolding respond_as_marker_def by (rule str_in_append_left)

lemma extract_final_response_clean:
  assumes "\<not> str_in ''USER MESSAGE:'' t" and "\<not> str_in (respond_as_marker ps) t"
    and "\<not> str_in ''RESPONSE:'' t" and "\<not> fenced t"
  shows "extract_final_response ps t = t"
  using assms by (simp add: extract_final_response_cuts cut_marker_absent strip_fences_not_fenced)

lemma rate_limit_message_clean:
  "extract_final_response ps rate_limit_message = rate_limit_message"
proof (rule extract_final_response_clean)
  show "\<not> str_in ''USER MESSAGE:'' rate_limit_message"
    by (simp add: rate_limit_message_def str_startswith_def)
  have "\<not> str_in ''Respond as '' rate_limit_message"
    by (simp add: rate_limit_message_def str_startswith_def)
  then show "\<not> str_in (respond_as_marker ps) rate_limit_message"
    by (rule respond_as_absent)
  show "\<not> str_in ''RESPONSE:'' rate_limit_message"
    by (simp add: rate_limit_message_def str_startswith_def)
  show "\<not> fenced rate_limit_message"
    by (simp add: rate_limit_message_def fenced_def fence_def str_startswith_def)
qed

lemma generate_persona_response_status:
  assumes "respond cl (request_messages ps user_input history) = APIStatusError status_code"
  shows "fst (generate_persona_response cl ps user_input history) =
     (if status_code = 401 then auth_message
      else if status_code = 429 then rate_limit_message
      else if status_code = 400 then bad_request_message
      else ''I seem to have encountered a temporary disruption in my thought process (API Error: ''
           @ str_of_int status_code @ ''). Please try again shortly.'')"
  using assms
  by (simp add: generate_persona_response_def chat_completions_create_def Let_def)

text \<open>
  Claim C5. When the call to the client fails with status 429,
  \<open>generate_persona_response\<close> returns the fixed rate-limit text, and the handler of the
  message appends that very text to the history, as a message of role "assistant", after
  the user's message. For every status code of an API failure the function returns the
  text the code is mapped to; on each of the three outcomes of the call it returns a text.
\<close>

theorem rate_limit_reply_enters_history:
  "(respond cl (request_messages ps user_input history) = APIStatusError 429 \<longrightarrow>
      fst (generate_persona_response cl ps user_input history) =
        ''My thoughts are racing, but I'm being asked to slow down. Please give me a moment before asking again.'') \<and>
   (user_input \<noteq> [] \<and> apply_decision_heuristics (personality_state st) user_input = None \<and>
    respond (client st)
      (request_messages (update_emotional_state (personality_state st) user_input) user_input
         (conversation_history st @ [\<lparr>role = ''user'', content = user_input\<rparr>])) =
      APIStatusError 429 \<longrightarrow>
      conversation_history (handle_user_input st user_input) =
        conversation_history st @
          [\<lparr>role = ''user'', content = user_input\<rparr>,
           \<lparr>role = ''assistant'',
            content = ''My thoughts are racing, but I'm being asked to slow down. Please give me a moment before asking again.''\<rparr>]) \<and>
   (respond cl (request_messages ps user_input history) = APIStatusError status_code \<longrightarrow>
      fst (generate_persona_response cl ps user_input history) =
        (if status_code = 401 then auth_message
         else if status_code = 429 then rate_limit_message
         else if status_code = 400 then bad_request_message
         else ''I seem to have encountered a temporary disruption in my thought process (API Error: ''
              @ str_of_int status_code @ ''). Please try again shortly.''))"
proof -
  have direct: "fst (generate_persona_response cl ps user_input history) =
        ''My thoughts are racing, but I'm being asked to slow down. Please give me a moment before asking again.''"
    if "respond cl (request_messages ps user_input history) = APIStatusError 429"
    using generate_persona_response_status [OF that] by (simp add: rate_limit_message_def)
  have appended: "conversation_history (handle_user_input st user_input) =
        conversation_history st @
          [\<lparr>role = ''user'', content = user_input\<rparr>,
           \<lparr>role = ''assistant'',
            content = ''My thoughts are racing, but I'm being asked to slow down. Please give me a moment before asking again.''\<rparr>]"
    if h: "user_input \<noteq> [] \<and> apply_decision_heuristics (personality_state st) user_input = None \<and>
      respond (client st)
        (request_messages (update_emotional_state (personality_state st) user_input) user_input
           (conversation_history st @ [\<lparr>role = ''user'', content = user_input\<rparr>])) =
        APIStatusError 429"
  proof -
    from h have "fst (generate_persona_response (client st)
        (update_emotional_state (personality_state st) user_input) user_input
        (conversation_history st @ [\<lparr>role = ''user'', content = user_input\<rparr>])) =
        rate_limit_message"
      by (simp add: generate_persona_response_status)
    with h have "conversation_history (handle_user_input st user_input) =
        conversation_history st @
          [\<lparr>role = ''user'', content = user_input\<rparr>,
           \<lparr>role = ''assistant'', content = rate_limit_message\<rparr>]"
      by (simp add: llm_path_taken Let_def rate_limit_message_clean)
    then show ?thesis by (simp add: rate_limit_message_def)
  qed
  from direct appended generate_persona_response_status [of cl ps user_input history status_code]
  show ?thesis by blast
qed

theorem rate_limit_reply_enters_history_witness:
  "apply_decision_heuristics poe ''Is there hope?'' = None \<and>
   respond (client (poe_session (APIStatusError 429)))
      (request_messages (update_emotional_state poe ''Is there hope?'') ''Is there hope?''
         (conversation_history (poe_session (APIStatusError 429)) @
            [\<lparr>role = ''user'', content = ''Is there hope?''\<rparr>])) = APIStatusError 429 \<and>
   conversation_history (handle_user_input (poe_session (APIStatusError 429)) ''Is there hope?'') =
     [\<lparr>role = ''system'', content = ''You are Edgar Allan Poe.''\<rparr>,
      \<lparr>role = ''user'', content = ''Is there hope?''\<rparr>,
      \<lparr>role = ''assistant'',
       content = ''My thoughts are racing, but I'm being asked to slow down. Please give me a moment before asking again.''\<rparr>]"
proof -
  have "\<not> sublist ''death'' (str_lower ''Is there hope?'') \<and>
      \<not> sublist ''love'' (str_lower ''Is there hope?'') \<and>
      \<not> sublist ''raven'' (str_lower ''Is there hope?'')"
    unfolding str_in_sublist [symmetric] by (simp add: string_eval_defs char_class_defs)
  then have none: "apply_decision_heuristics poe ''Is there hope?'' = None"
    by (simp add: apply_decision_heuristics_chain)
  have st: "personality_state (poe_session (APIStatusError 429)) = poe"
    and hist: "conversation_history (poe_session (APIStatusError 429)) =
      [\<lparr>role = ''system'', content = ''You are Edgar Allan Poe.''\<rparr>]"
    and resp: "respond (client (poe_session (APIStatusError 429))) = (\<lambda>messages. APIStatusError 429)"
    by (simp_all add: poe_session_def poe_def)
  from none st hist resp
    rate_limit_reply_enters_history [of "client (poe_session (APIStatusError 429))" poe
      "''Is there hope?''" "[]" "poe_session (APIStatusError 429)" 429]
  show ?thesis by simp
qed

section \<open>Splitting and joining\<close>

lemma str_find_None_iff: "str_find s sub = None \<longleftrightarrow> \<not> str_in sub s"
  by (induction s) auto

lemma str_find_occurrence: "str_find s sub = Some i \<Longrightarrow> take (length sub) (drop i s) = sub"
proof (induction s arbitrary: i)
  case Nil
  then show ?case by (simp split: if_splits)
next
  case (Cons c cs)
  show ?case
  proof (cases "str_startswith (c # cs) sub")
    case True
    with Cons.prems show ?thesis by (simp add: str_startswith_def)
  next
    case False
    with Cons.prems obtain j where "str_find cs sub = Some j" and "i = Suc j" by auto
    with Cons.IH show ?thesis by simp
  qed
qed

lemma str_find_decompose:
  assumes "str_find s sub = Some i"
  shows "s = take i s @ sub @ drop (i + length sub) s"
proof -
  have occ: "take (length sub) (drop i s) = sub"
    using assms by (rule str_find_occurrence)
  have "drop i s = take (length sub) (drop i s) @ drop (length sub) (drop i s)"
    by (simp only: append_take_drop_id)
  also have "\<dots> = sub @ drop (i + length sub) s"
    by (simp only: occ drop_drop add.commute)
  finally have "take i s @ drop i s = take i s @ sub @ drop (i + length sub) s"
    by simp
  then show ?thesis by (simp only: append_take_drop_id)
qed

lemma str_split_unfold_none:
  "sep = [] \<or> str_find s sep = None \<Longrightarrow> str_split s sep = [s]"
  by (subst str_split.simps) auto

lemma str_split_unfold_some:
  "sep \<noteq> [] \<Longrightarrow> str_find s sep = Some i \<Longrightarrow>
   str_split s sep = take i s # str_split (drop (i + length sep) s) sep"
  by (subst str_split.simps) simp

lemma str_split_nonempty: "str_split s sep \<noteq> []"
  by (subst str_split.simps) (simp split: option.splits)

lemma str_split_last_suffix: "suffix (last (str_split s sep)) s"
proof (induction s sep rule: str_split.induct)
  case (1 s sep)
  show ?case
  proof (cases "sep = [] \<or> str_find s sep = None")
    case True
    then show ?thesis by (simp add: str_split_unfold_none)
  next
    case False
    then obtain i where sep: "sep \<noteq> []" and i: "str_find s sep = Some i" by auto
    then have "last (str_split s sep) = last (str_split (drop (i + length sep) s) sep)"
      by (simp add: str_split_unfold_some str_split_nonempty)
    moreover have "suffix (last (str_split (drop (i + length sep) s) sep)) (drop (i + length sep) s)"
      using sep i by (rule "1.IH")
    moreover have "suffix (drop (i + length sep) s) s" by (rule suffix_drop)
    ultimately show ?thesis by (metis suffix_order.trans)
  qed
qed

lemma str_split_last_free: "sep \<noteq> [] \<Longrightarrow> \<not> str_in sep (last (str_split s sep))"
proof (induction s sep rule: str_split.induct)
  case (1 s sep)
  show ?case
  proof (cases "str_find s sep")
    case None
    then show ?thesis by (simp add: str_split_unfold_none str_find_None_iff [symmetric])
  next
    case (Some i)
    with "1.prems" have "last (str_split s sep) = last (str_split (drop (i + length sep) s) sep)"
      by (simp add: str_split_unfold_some str_split_nonempty)
    moreover have "\<not> str_in sep (last (str_split (drop (i + length sep) s) sep))"
      using "1.prems" Some "1.prems" by (rule "1.IH")
    ultimately show ?thesis by simp
  qed
qed

lemma str_join_Cons: "rest \<noteq> [] \<Longrightarrow> str_join sep (x # rest) = x @ sep @ str_join sep rest"
  by (cases rest) simp_all

lemma str_join_split: "str_join sep (str_split s sep) = s"
proof (induction s sep rule: str_split.induct)
  case (1 s sep)
  show ?case
  proof (cases "sep = [] \<or> str_find s sep = None")
    case True
    then show ?thesis by (simp add: str_split_unfold_none)
  next
    case False
    then obtain i where sep: "sep \<noteq> []" and i: "str_find s sep = Some i" by auto
    then have "str_join sep (str_split s sep) =
        take i s @ sep @ str_join sep (str_split (drop (i + length sep) s) sep)"
      by (simp add: str_split_unfold_some str_join_Cons str_split_nonempty)
    also have "str_join sep (str_split (drop (i + length sep) s) sep) = drop (i + length sep) s"
      using sep i by (rule "1.IH")
    also have "take i s @ sep @ drop (i + length sep) s = s"
      using str_find_decompose [OF i] by simp
    finally show ?thesis .
  qed
qed

lemma str_join_tl_suffix: "suffix (str_join sep (tl (str_split s sep))) s"
proof (cases "sep = [] \<or> str_find s sep = None")
  case True
  then show ?thesis by (simp add: str_split_unfold_none)
next
  case False
  then obtain i where sep: "sep \<noteq> []" and i: "str_find s sep = Some i" by auto
  then have "str_join sep (tl (str_split s sep)) = drop (i + length sep) s"
    by (simp add: str_split_unfold_some str_join_split)
  then show ?thesis by (simp add: suffix_drop)
qed

lemma sublist_chain: "sublist a b \<Longrightarrow> sublist b c \<Longrightarrow> sublist a c"
proof -
  assume "sublist a b" and "sublist b c"
  then obtain p q p' q' where "b = p @ a @ q" and "c = p' @ b @ q'"
    by (auto simp: sublist_def)
  then have "c = (p' @ p) @ a @ (q @ q')" by simp
  then show "sublist a c" unfolding sublist_def by blast
qed

lemma str_strip_sublist: "sublist (str_strip s) s"
proof -
  have "sublist (dropWhile char_isspace (rev (dropWhile char_isspace s)))
      (rev (dropWhile char_isspace s))"
    by (rule sublist_dropWhile)
  then have "sublist (str_strip s) (dropWhile char_isspace s)"
    by (simp add: str_strip_def sublist_rev_left)
  moreover have "sublist (dropWhile char_isspace s) s" by (rule sublist_dropWhile)
  ultimately show ?thesis by (rule sublist_chain)
qed

lemma str_in_mono: "sublist t' t \<Longrightarrow> \<not> str_in m t \<Longrightarrow> \<not> str_in m t'"
  unfolding str_in_sublist by (blast intro: sublist_chain)

section \<open>The cleaner keeps a part of its input\<close>

lemma cut_marker_sublist: "sublist (cut_marker m t) t"
proof (cases "str_in m t")
  case True
  have "sublist (str_strip (last (str_split t m))) (last (str_split t m))"
    by (rule str_strip_sublist)
  moreover have "sublist (last (str_split t m)) t"
    using str_split_last_suffix by (rule suffix_imp_sublist)
  ultimately show ?thesis using True by (simp add: cut_marker_def sublist_chain)
next
  case False
  then show ?thesis by (simp add: cut_marker_def)
qed

lemma cut_marker_free: "m \<noteq> [] \<Longrightarrow> \<not> str_in m (cut_marker m t)"
proof (cases "str_in m t")
  case True
  assume "m \<noteq> []"
  then have "\<not> str_in m (last (str_split t m))" by (rule str_split_last_free)
  with str_strip_sublist have "\<not> str_in m (str_strip (last (str_split t m)))"
    by (rule str_in_mono)
  with True show ?thesis by (simp add: cut_marker_def)
next
  case False
  then show ?thesis by (simp add: cut_marker_def)
qed

lemma length_fence: "length fence = 3"
  by (simp add: fence_def)

lemma strip_fences_fenced_sublist:
  assumes "fenced t"
  shows "sublist (strip_fences t) (drop 3 t)"
proof -
  define u where "u = str_removesuffix (str_removeprefix t fence) fence"
  define c where "c = str_strip u"
  from assms have "str_removeprefix t fence = drop 3 t"
    by (simp add: fenced_def str_removeprefix_def length_fence)
  then have "sublist u (drop 3 t)"
    by (simp add: u_def str_removesuffix_def)
  moreover have "sublist c u" unfolding c_def by (rule str_strip_sublist)
  ultimately have c: "sublist c (drop 3 t)" by (blast intro: sublist_chain)
  have "sublist (str_join newline (tl (str_split c newline))) c"
    using str_join_tl_suffix by (rule suffix_imp_sublist)
  with str_strip_sublist have "sublist (str_strip (str_join newline (tl (str_split c newline)))) c"
    by (rule sublist_chain)
  then have tag: "sublist (str_strip (str_join newline (tl (str_split c newline)))) (drop 3 t)"
    using c by (rule sublist_chain)
  from assms have "strip_fences t = c \<or>
      strip_fences t = str_strip (str_join newline (tl (str_split c newline)))"
    by (simp add: strip_fences_def fenced_def c_def u_def Let_def)
  with c tag show ?thesis by auto
qed

lemma strip_fences_sublist: "sublist (strip_fences t) t"
proof (cases "fenced t")
  case True
  then have "sublist (strip_fences t) (drop 3 t)" by (rule strip_fences_fenced_sublist)
  moreover have "sublist (drop 3 t) t" by (rule sublist_drop)
  ultimately show ?thesis by (rule sublist_chain)
next
  case False
  then show ?thesis by (simp add: strip_fences_not_fenced)
qed

lemma strip_fences_shorter:
  assumes "fenced t"
  shows "length (strip_fences t) < length t"
proof -
  from assms have "str_startswith t fence" by (simp add: fenced_def)
  then have "length (take (length fence) t) = length fence" by (simp add: str_startswith_def)
  then have "3 \<le> length t" by (simp add: length_fence)
  moreover from assms have "length (strip_fences t) \<le> length (drop 3 t)"
    by (intro sublist_length_le strip_fences_fenced_sublist)
  ultimately show ?thesis by simp
qed

lemma respond_as_marker_nonempty: "respond_as_marker ps \<noteq> []"
  by (simp add: respond_as_marker_def)

lemma extract_final_response_free:
  "\<not> str_in ''USER MESSAGE:'' (extract_final_response ps x) \<and>
   \<not> str_in (respond_as_marker ps) (extract_final_response ps x) \<and>
   \<not> str_in ''RESPONSE:'' (extract_final_response ps x)"
proof -
  define t1 where "t1 = cut_marker ''USER MESSAGE:'' x"
  define t2 where "t2 = cut_marker (respond_as_marker ps) t1"
  define t3 where "t3 = cut_marker ''RESPONSE:'' t2"
  have y: "extract_final_response ps x = strip_fences t3"
    by (simp add: extract_final_response_cuts t1_def t2_def t3_def)
  have s21: "sublist t2 t1" and s32: "sublist t3 t2" and sy3: "sublist (strip_fences t3) t3"
    by (simp_all add: t2_def t3_def cut_marker_sublist strip_fences_sublist)
  have "\<not> str_in ''USER MESSAGE:'' t1" unfolding t1_def by (rule cut_marker_free) simp
  with s21 have "\<not> str_in ''USER MESSAGE:'' t2" by (rule str_in_mono)
  with s32 have "\<not> str_in ''USER MESSAGE:'' t3" by (rule str_in_mono)
  with sy3 have um: "\<not> str_in ''USER MESSAGE:'' (strip_fences t3)" by (rule str_in_mono)
  have "\<not> str_in (respond_as_marker ps) t2"
    unfolding t2_def using respond_as_marker_nonempty by (rule cut_marker_free)
  with s32 have "\<not> str_in (respond_as_marker ps) t3" by (rule str_in_mono)
  with sy3 have ra: "\<not> str_in (respond_as_marker ps) (strip_fences t3)" by (rule str_in_mono)
  have "\<not> str_in ''RESPONSE:'' t3" unfolding t3_def by (rule cut_marker_free) simp
  with sy3 have re: "\<not> str_in ''RESPONSE:'' (strip_fences t3)" by (rule str_in_mono)
  from um ra re show ?thesis unfolding y by blast
qed

lemma extract_final_response_again:
  "extract_final_response ps (extract_final_response ps x) =
     strip_fences (extract_final_response ps x)"
  using extract_final_response_free [of ps x]
  by (simp add: extract_final_response_cuts [of ps "extract_final_response ps x"]
      cut_marker_absent)

lemmas cleaner_eval_defs =
  cut_marker_def strip_fences_def fenced_def fence_def newline_def looks_like_language_tag_def
  str_isalpha_def str_removeprefix_def str_removesuffix_def str_startswith_def str_endswith_def
  str_strip_def str_lower_def str_split.simps Let_def

text \<open>
  Claim C9. The cleaner turns the raw text "USER MESSAGE: hi", "RESPONSE:", and the fenced
  block "text", "Hello there" (one per line) into "Hello there", whatever the persona's
  name: the cut at "USER MESSAGE:" and the cut at "RESPONSE:" keep the stripped rest, no
  "Respond as" marker occurs, one fence goes from each end, and the first line "text"
  goes as a language tag.
\<close>

theorem extract_final_response_example:
  "extract_final_response ps
     ''USER MESSAGE: hi\<newline>RESPONSE:\<newline>```text\<newline>Hello there```'' = ''Hello there''"
proof -
  have user: "cut_marker ''USER MESSAGE:''
      ''USER MESSAGE: hi\<newline>RESPONSE:\<newline>```text\<newline>Hello there```'' =
      ''hi\<newline>RESPONSE:\<newline>```text\<newline>Hello there```''"
    by (simp add: cleaner_eval_defs char_class_defs)
  have "\<not> str_in ''Respond as '' ''hi\<newline>RESPONSE:\<newline>```text\<newline>Hello there```''"
    by (simp add: str_startswith_def)
  then have persona: "cut_marker (respond_as_marker ps)
      ''hi\<newline>RESPONSE:\<newline>```text\<newline>Hello there```'' =
      ''hi\<newline>RESPONSE:\<newline>```text\<newline>Hello there```''"
    by (intro cut_marker_absent respond_as_absent)
  have response: "cut_marker ''RESPONSE:''
      ''hi\<newline>RESPONSE:\<newline>```text\<newline>Hello there```'' = ''```text\<newline>Hello there```''"
    by (simp add: cleaner_eval_defs char_class_defs)
  have fences: "strip_fences ''```text\<newline>Hello there```'' = ''Hello there''"
    by (simp add: cleaner_eval_defs char_class_defs)
  show ?thesis
    by (simp only: extract_final_response_cuts user persona response fences)
qed

theorem extract_final_response_example_witness:
  "name poe = ''Poe'' \<and>
   \<not> str_in (''Respond as '' @ name poe @ '','')
      ''USER MESSAGE: hi\<newline>RESPONSE:\<newline>```text\<newline>Hello there```'' \<and>
   extract_final_response poe
     ''USER MESSAGE: hi\<newline>RESPONSE:\<newline>```text\<newline>Hello there```'' = ''Hello there''"
proof -
  have "\<not> str_in (''Respond as '' @ name poe @ '','')
      ''USER MESSAGE: hi\<newline>RESPONSE:\<newline>```text\<newline>Hello there```''"
    by (simp add: poe_def str_startswith_def)
  with extract_final_response_example [of poe] show ?thesis by (simp add: poe_def)
qed

text \<open>
  Claim C4, as the specification states it, at the input of six backticks, "x", six
  backticks: the cleaner takes one fence from each end and returns "x" between two
  fences; on that text it takes the two fences and returns "x".
\<close>

theorem nested_fences_counterexample:
  "extract_final_response poe ''``````x``````'' = ''```x```'' \<and>
   extract_final_response poe (extract_final_response poe ''``````x``````'') = ''x'' \<and>
   extract_final_response poe (extract_final_response poe ''``````x``````'') \<noteq>
     extract_final_response poe ''``````x``````''"
proof -
  have outer: "extract_final_response poe ''``````x``````'' = ''```x```''"
    by (simp add: extract_final_response_cuts respond_as_marker_def poe_def cleaner_eval_defs
        char_class_defs)
  have inner: "extract_final_response poe ''```x```'' = ''x''"
    by (simp add: extract_final_response_cuts respond_as_marker_def poe_def cleaner_eval_defs
        char_class_defs)
  from outer inner show ?thesis by simp
qed

text \<open>
  Claim C4, amended. The cleaner applies, in order, the cut at "USER MESSAGE:", the cut
  at "Respond as" with the persona's name, the cut at "RESPONSE:" and the strip of one
  pair of fences with the drop of a language tag. Cleaning a cleaned text again changes
  nothing exactly when the cleaned text is not itself wrapped in a pair of fences: for
  every \<open>x\<close> and every persona, \<open>clean (clean x) = clean x\<close> if and only if \<open>clean x\<close>
  does not both start and end with a fence.
\<close>

theorem extract_final_response_idempotent_iff:
  "extract_final_response ps (extract_final_response ps x) = extract_final_response ps x \<longleftrightarrow>
     \<not> (str_startswith (extract_final_response ps x) ''```'' \<and>
        str_endswith (extract_final_response ps x) ''```'')"
proof (cases "fenced (extract_final_response ps x)")
  case True
  then have "length (strip_fences (extract_final_response ps x)) <
      length (extract_final_response ps x)"
    by (rule strip_fences_shorter)
  then have "strip_fences (extract_final_response ps x) \<noteq> extract_final_response ps x"
    by auto
  with True show ?thesis
    by (simp add: extract_final_response_again fenced_def fence_def)
next
  case False
  then have "strip_fences (extract_final_response ps x) = extract_final_response ps x"
    by (rule strip_fences_not_fenced)
  with False show ?thesis
    by (simp add: extract_final_response_again fenced_def fence_def)
qed

theorem extract_final_response_idempotent_iff_witness:
  "\<not> str_startswith (extract_final_response poe '' RESPONSE: ```json\<newline>{}``` '') ''```'' \<and>
   extract_final_response poe '' RESPONSE: ```json\<newline>{}``` '' = ''{}'' \<and>
   extract_final_response poe (extract_final_response poe '' RESPONSE: ```json\<newline>{}``` '') =
     extract_final_response poe '' RESPONSE: ```json\<newline>{}``` ''"
proof -
  have run: "extract_final_response poe '' RESPONSE: ```json\<newline>{}``` '' = ''{}''"
    by (simp add: extract_final_response_cuts respond_as_marker_def poe_def cleaner_eval_defs
        char_class_defs)
  then have "\<not> str_startswith (extract_final_response poe '' RESPONSE: ```json\<newline>{}``` '') ''```''"
    by (simp add: str_startswith_def)
  with run extract_final_response_idempotent_iff [of poe "'' RESPONSE: ```json\<newline>{}``` ''"]
  show ?thesis by simp
qed

end
